theory Spec2Isabelle
  imports Complex_Main "HOL-Library.Option_ord" "HOL-Library.Sublist" "HOL-Library.Multiset"
begin

text \<open>
  A model of the patient-record server: the schema \<open>patientSchema\<close> and the five route
  handlers of the Express application. The handlers call Mongoose 8 (\<open>Patient.create\<close>,
  \<open>Patient.find(...).sort(...)\<close>, \<open>Patient.findById\<close>, \<open>Patient.findByIdAndUpdate\<close> with
  \<open>runValidators\<close>, \<open>Patient.findByIdAndDelete\<close>); the model gives these calls, and the schema
  options \<open>required\<close>, \<open>trim\<close>, \<open>enum\<close> and \<open>default\<close>, the meaning that Mongoose documents
  for them. The collection is explicit state: a handler that writes takes the collection
  and returns the response with the new collection. The database is taken to answer: a
  lost connection is not part of the model.
\<close>

section \<open>Values\<close>

text \<open>
  A JavaScript string is modelled as a HOL string: a \<^typ>\<open>char\<close> stands for the UTF-16 code
  unit of the same value, so the model covers the strings whose code units are below 256.
  A Number is a finite rational or an infinity; no arithmetic is done on Numbers by the
  program, they are only converted from form text, stored and shown. A Date is its time
  value (milliseconds since the epoch). An ObjectId is a natural number.
\<close>

datatype number = Finite rat | PosInfinity | NegInfinity

type_synonym date = int

type_synonym objectId = nat

text \<open>
  A path of a document whose schema type is Number or Date can be absent (\<open>undefined\<close>),
  \<open>null\<close> or hold a value. A String path is absent or holds a string (a string is never
  cast to \<open>null\<close>), which is an \<^typ>\<open>string option\<close>.
\<close>

datatype 'a slot = Missing | Null | Val 'a

text \<open>
  The conversions supplied by the platform and the libraries, whose code is not part of the
  repository, are parameters of the model:
  \<^item> \<open>StringToNumber\<close>: \<open>Number(s)\<close> on a string, \<open>None\<close> for \<open>NaN\<close>;
  \<^item> \<open>parseDate\<close>: the Date that Mongoose's Date cast builds from a non-empty string,
    \<open>None\<close> for an invalid Date;
  \<^item> \<open>castObjectId\<close>: the ObjectId cast of a route parameter, \<open>None\<close> when it fails;
  \<^item> \<open>RegExp_other\<close>: \<open>new RegExp(s, 'i')\<close> for the patterns that use more of the
    pattern language than the part modelled below; \<open>None\<close> for a SyntaxError, otherwise the
    predicate "the pattern matches somewhere in this string".
\<close>

record runtime =
  StringToNumber :: "string \<Rightarrow> number option"
  parseDate :: "string \<Rightarrow> date option"
  castObjectId :: "string \<Rightarrow> objectId option"
  RegExp_other :: "string \<Rightarrow> (string \<Rightarrow> bool) option"

datatype error = ValidationError | CastError | SyntaxError

section \<open>Data model (patientSchema)\<close>

record vitals =
  heartRate :: "number slot"
  bloodPressure :: "string option"
  temperature :: "number slot"

record patient =
  oid :: objectId
  fullName :: string
  age :: number
  condition :: string
  department :: string
  status :: string
  vitals :: vitals
  roomNumber :: string
  "notes" :: "string option"
  admissionDate :: "date option"

text \<open>
  In a stored patient the required paths hold values; \<open>admissionDate\<close> is a Date or
  \<open>null\<close> (\<open>None\<close>); \<open>notes\<close> is absent (\<open>None\<close>) or a string.
\<close>

definition departments :: "string list" where
  "departments = [''Emergency'', ''ICU'', ''Cardiology'', ''Pediatrics'', ''Neurology'', ''General Ward'']"

definition statuses :: "string list" where
  "statuses = [''Admitted'', ''Discharged'', ''Critical'', ''Outpatient'', ''Recovery'']"

subsection \<open>The form body\<close>

text \<open>
  \<open>req.body\<close> as \<open>express.urlencoded\<close> parses it: every field of the form is absent or a
  string, and \<open>vitals\<close> is absent or a nested object of such fields.
\<close>

record vitals_body =
  body_heartRate :: "string option"
  body_bloodPressure :: "string option"
  body_temperature :: "string option"

record body =
  body_fullName :: "string option"
  body_age :: "string option"
  body_condition :: "string option"
  body_department :: "string option"
  body_status :: "string option"
  body_vitals :: "vitals_body option"
  body_roomNumber :: "string option"
  body_notes :: "string option"
  body_admissionDate :: "string option"

subsection \<open>Setters and casts\<close>

text \<open>\<open>String.prototype.trim\<close>: white space and line terminators, among the code units below 256.\<close>

definition WhiteSpace :: "char list" where
  "WhiteSpace = [CHR 0x09, CHR 0x0A, CHR 0x0B, CHR 0x0C, CHR 0x0D, CHR 0x20, CHR 0xA0]"

definition trim :: "string \<Rightarrow> string" where
  "trim s = rev (dropWhile (\<lambda>c. c \<in> set WhiteSpace) (rev (dropWhile (\<lambda>c. c \<in> set WhiteSpace) s)))"

text \<open>Mongoose's Number cast of a form field: the empty string is \<open>null\<close>, \<open>NaN\<close> is a cast error (\<open>None\<close>).\<close>

definition castNumber :: "runtime \<Rightarrow> string option \<Rightarrow> number slot option" where
  "castNumber rt x =
     (case x of
        None \<Rightarrow> Some Missing
      | Some s \<Rightarrow> if s = [] then Some Null else map_option Val (StringToNumber rt s))"

text \<open>Mongoose's Date cast of a form field: the empty string is \<open>null\<close>, an invalid Date is a cast error.\<close>

definition castDate :: "runtime \<Rightarrow> string option \<Rightarrow> date slot option" where
  "castDate rt x =
     (case x of
        None \<Rightarrow> Some Missing
      | Some s \<Rightarrow> if s = [] then Some Null else map_option Val (parseDate rt s))"

definition cast_vitals :: "runtime \<Rightarrow> vitals_body option \<Rightarrow> vitals option option" where
  "cast_vitals rt x =
     (case x of
        None \<Rightarrow> Some None
      | Some v \<Rightarrow>
          (case castNumber rt (body_heartRate v) of
             None \<Rightarrow> None
           | Some h \<Rightarrow>
               (case castNumber rt (body_temperature v) of
                  None \<Rightarrow> None
                | Some t \<Rightarrow>
                    Some (Some \<lparr>heartRate = h, bloodPressure = body_bloodPressure v, temperature = t\<rparr>))))"

text \<open>
  The body after casting and setters (\<open>trim\<close> on \<open>fullName\<close> and \<open>notes\<close>), path by path.
\<close>

record casted =
  c_fullName :: "string option"
  c_age :: "number slot"
  c_condition :: "string option"
  c_department :: "string option"
  c_status :: "string option"
  c_vitals :: "vitals option"
  c_roomNumber :: "string option"
  c_notes :: "string option"
  c_admissionDate :: "date slot"

definition cast_body :: "runtime \<Rightarrow> body \<Rightarrow> casted option" where
  "cast_body rt b =
     (case castNumber rt (body_age b) of
        None \<Rightarrow> None
      | Some a \<Rightarrow>
          (case cast_vitals rt (body_vitals b) of
             None \<Rightarrow> None
           | Some v \<Rightarrow>
               (case castDate rt (body_admissionDate b) of
                  None \<Rightarrow> None
                | Some d \<Rightarrow>
                    Some \<lparr>c_fullName = map_option trim (body_fullName b),
                          c_age = a,
                          c_condition = body_condition b,
                          c_department = body_department b,
                          c_status = body_status b,
                          c_vitals = v,
                          c_roomNumber = body_roomNumber b,
                          c_notes = map_option trim (body_notes b),
                          c_admissionDate = d\<rparr>)))"

subsection \<open>Defaults\<close>

definition applyDefault :: "'a \<Rightarrow> 'a slot \<Rightarrow> 'a slot" where
  "applyDefault d x = (case x of Missing \<Rightarrow> Val d | Null \<Rightarrow> Null | Val v \<Rightarrow> Val v)"

definition vitals_defaults :: "vitals \<Rightarrow> vitals" where
  "vitals_defaults v =
     \<lparr>heartRate = applyDefault (Finite 0) (heartRate v),
      bloodPressure = (case bloodPressure v of None \<Rightarrow> Some ''N/A'' | Some s \<Rightarrow> Some s),
      temperature = applyDefault (Finite 36.5) (temperature v)\<rparr>"

definition no_vitals :: vitals where
  "no_vitals = \<lparr>heartRate = Missing, bloodPressure = None, temperature = Missing\<rparr>"

subsection \<open>Validators\<close>

text \<open>
  The \<open>required\<close> validator of a String path fails on an absent value and on the empty
  string; the one of a Number path fails on an absent value and on \<open>null\<close>. The \<open>enum\<close>
  validator is skipped on an absent value and otherwise asks for a member of the list.
\<close>

definition requiredString :: "string option \<Rightarrow> bool" where
  "requiredString x = (case x of None \<Rightarrow> False | Some s \<Rightarrow> s \<noteq> [])"

definition requiredNumber :: "number slot \<Rightarrow> bool" where
  "requiredNumber x = (case x of Missing \<Rightarrow> False | Null \<Rightarrow> False | Val n \<Rightarrow> True)"

definition enumValidator :: "string list \<Rightarrow> string option \<Rightarrow> bool" where
  "enumValidator values x = (case x of None \<Rightarrow> True | Some s \<Rightarrow> s \<in> set values)"

section \<open>The collection\<close>

text \<open>
  The collection is the list of its documents in insertion order. A new document gets an
  ObjectId that no document of the collection has.
\<close>

definition ObjectId :: "patient list \<Rightarrow> objectId" where
  "ObjectId docs = Suc (fold max (map oid docs) 0)"

subsection \<open>Patient.create\<close>

text \<open>
  \<open>Patient.create(req.body)\<close>: the document is built from the schema defaults and the cast
  body, validated as a whole, and inserted only when every validator passes. A cast error of
  a path is reported by validation, so every failure is a ValidationError.
  \<open>now\<close> is \<open>Date.now()\<close>.
\<close>

definition with_defaults :: "date \<Rightarrow> casted \<Rightarrow> casted" where
  "with_defaults now c =
     \<lparr>c_fullName = c_fullName c,
      c_age = c_age c,
      c_condition = c_condition c,
      c_department = (case c_department c of None \<Rightarrow> Some ''General Ward'' | Some d \<Rightarrow> Some d),
      c_status = (case c_status c of None \<Rightarrow> Some ''Admitted'' | Some s \<Rightarrow> Some s),
      c_vitals = Some (vitals_defaults (case c_vitals c of None \<Rightarrow> no_vitals | Some v \<Rightarrow> v)),
      c_roomNumber = (case c_roomNumber c of None \<Rightarrow> Some ''TBA'' | Some r \<Rightarrow> Some r),
      c_notes = c_notes c,
      c_admissionDate = applyDefault now (c_admissionDate c)\<rparr>"

definition validate :: "casted \<Rightarrow> bool" where
  "validate c \<longleftrightarrow>
     requiredString (c_fullName c)
     \<and> requiredNumber (c_age c)
     \<and> requiredString (c_condition c)
     \<and> requiredString (c_department c) \<and> enumValidator departments (c_department c)
     \<and> enumValidator statuses (c_status c)"

text \<open>
  The document to insert, once the paths are known to hold what the patient record needs
  (\<open>None\<close> otherwise, which validation and the defaults exclude).
\<close>

definition new_document :: "objectId \<Rightarrow> casted \<Rightarrow> patient option" where
  "new_document i c =
     (case c_fullName c of None \<Rightarrow> None | Some n \<Rightarrow>
      case c_age c of Missing \<Rightarrow> None | Null \<Rightarrow> None | Val a \<Rightarrow>
      case c_condition c of None \<Rightarrow> None | Some cd \<Rightarrow>
      case c_department c of None \<Rightarrow> None | Some d \<Rightarrow>
      case c_status c of None \<Rightarrow> None | Some s \<Rightarrow>
      case c_vitals c of None \<Rightarrow> None | Some v \<Rightarrow>
      case c_roomNumber c of None \<Rightarrow> None | Some r \<Rightarrow>
      case c_admissionDate c of Missing \<Rightarrow> None
      | Null \<Rightarrow>
          Some \<lparr>oid = i, fullName = n, age = a, condition = cd, department = d, status = s,
                vitals = v, roomNumber = r, notes = c_notes c, admissionDate = None\<rparr>
      | Val t \<Rightarrow>
          Some \<lparr>oid = i, fullName = n, age = a, condition = cd, department = d, status = s,
                vitals = v, roomNumber = r, notes = c_notes c, admissionDate = Some t\<rparr>)"

definition Patient_create :: "runtime \<Rightarrow> date \<Rightarrow> body \<Rightarrow> patient list \<Rightarrow> error + patient list" where
  "Patient_create rt now b docs =
     (case cast_body rt b of
        None \<Rightarrow> Inl ValidationError
      | Some c \<Rightarrow>
          (let doc = with_defaults now c
           in if validate doc
              then (case new_document (ObjectId docs) doc of
                      None \<Rightarrow> Inl ValidationError
                    | Some p \<Rightarrow> Inr (docs @ [p]))
              else Inl ValidationError))"

subsection \<open>Patient.findByIdAndUpdate with runValidators\<close>

text \<open>
  The update validators run on the paths the update sets, and only on them.
\<close>

definition updateValidators :: "casted \<Rightarrow> bool" where
  "updateValidators c \<longleftrightarrow>
     (case c_fullName c of None \<Rightarrow> True | Some n \<Rightarrow> requiredString (Some n))
     \<and> (case c_age c of Missing \<Rightarrow> True | Null \<Rightarrow> requiredNumber Null | Val a \<Rightarrow> requiredNumber (Val a))
     \<and> (case c_condition c of None \<Rightarrow> True | Some cd \<Rightarrow> requiredString (Some cd))
     \<and> (case c_department c of
          None \<Rightarrow> True
        | Some d \<Rightarrow> requiredString (Some d) \<and> enumValidator departments (Some d))
     \<and> enumValidator statuses (c_status c)"

text \<open>
  \<open>$set\<close> of the cast body on a document: a path the body does not supply keeps its value,
  and a supplied \<open>vitals\<close> object replaces the stored one as a whole.
\<close>

definition apply_set :: "casted \<Rightarrow> patient \<Rightarrow> patient" where
  "apply_set c p =
     \<lparr>oid = oid p,
      fullName = (case c_fullName c of None \<Rightarrow> fullName p | Some n \<Rightarrow> n),
      age = (case c_age c of Val a \<Rightarrow> a | _ \<Rightarrow> age p),
      condition = (case c_condition c of None \<Rightarrow> condition p | Some cd \<Rightarrow> cd),
      department = (case c_department c of None \<Rightarrow> department p | Some d \<Rightarrow> d),
      status = (case c_status c of None \<Rightarrow> status p | Some s \<Rightarrow> s),
      vitals = (case c_vitals c of None \<Rightarrow> vitals p | Some v \<Rightarrow> v),
      roomNumber = (case c_roomNumber c of None \<Rightarrow> roomNumber p | Some r \<Rightarrow> r),
      notes = (case c_notes c of None \<Rightarrow> notes p | Some t \<Rightarrow> Some t),
      admissionDate =
        (case c_admissionDate c of Missing \<Rightarrow> admissionDate p | Null \<Rightarrow> None | Val t \<Rightarrow> Some t)\<rparr>"

fun updateOne :: "objectId \<Rightarrow> (patient \<Rightarrow> patient) \<Rightarrow> patient list \<Rightarrow> patient list" where
  "updateOne i f [] = []"
| "updateOne i f (p # ps) = (if oid p = i then f p # ps else p # updateOne i f ps)"

definition Patient_findByIdAndUpdate ::
  "runtime \<Rightarrow> string \<Rightarrow> body \<Rightarrow> patient list \<Rightarrow> error + patient list" where
  "Patient_findByIdAndUpdate rt id_param b docs =
     (case castObjectId rt id_param of
        None \<Rightarrow> Inl CastError
      | Some i \<Rightarrow>
          (case cast_body rt b of
             None \<Rightarrow> Inl CastError
           | Some c \<Rightarrow>
               if updateValidators c then Inr (updateOne i (apply_set c) docs)
               else Inl ValidationError))"

subsection \<open>Patient.findByIdAndDelete and Patient.findById\<close>

fun deleteOne :: "objectId \<Rightarrow> patient list \<Rightarrow> patient list" where
  "deleteOne i [] = []"
| "deleteOne i (p # ps) = (if oid p = i then ps else p # deleteOne i ps)"

definition Patient_findByIdAndDelete :: "runtime \<Rightarrow> string \<Rightarrow> patient list \<Rightarrow> error + patient list" where
  "Patient_findByIdAndDelete rt id_param docs =
     (case castObjectId rt id_param of
        None \<Rightarrow> Inl CastError
      | Some i \<Rightarrow> Inr (deleteOne i docs))"

text \<open>
  A document read from the collection gets the schema defaults on the paths it lacks.
\<close>

definition hydrate :: "patient \<Rightarrow> patient" where
  "hydrate p = p\<lparr>vitals := vitals_defaults (vitals p)\<rparr>"

definition Patient_findById :: "runtime \<Rightarrow> string \<Rightarrow> patient list \<Rightarrow> error + patient option" where
  "Patient_findById rt id_param docs =
     (case castObjectId rt id_param of
        None \<Rightarrow> Inl CastError
      | Some i \<Rightarrow> Inr (map_option hydrate (find (\<lambda>p. oid p = i) docs)))"

section \<open>The search pattern\<close>

text \<open>
  \<open>new RegExp(req.query.search, 'i')\<close>. The part of the pattern language modelled here is
  the patterns made of pattern characters (every character that is not a syntax character)
  and of the dot; every other pattern is left to \<open>RegExp_other\<close>.
\<close>

definition SyntaxCharacter :: "char list" where
  "SyntaxCharacter =
     [CHR ''^'', CHR ''$'', CHR 0x5C, CHR ''.'', CHR ''*'', CHR ''+'', CHR ''?'',
      CHR ''('', CHR '')'', CHR ''['', CHR '']'', CHR ''{'', CHR ''}'', CHR ''|'']"

definition LineTerminator :: "char list" where
  "LineTerminator = [CHR 0x0A, CHR 0x0D]"

datatype atom = PatternCharacter char | Dot

definition parse_atom :: "char \<Rightarrow> atom option" where
  "parse_atom c =
     (if c = CHR ''.'' then Some Dot
      else if c \<in> set SyntaxCharacter then None
      else Some (PatternCharacter c))"

definition parse_pattern :: "string \<Rightarrow> atom list option" where
  "parse_pattern s = those (map parse_atom s)"

text \<open>
  Canonicalize under the \<open>i\<close> flag: the code unit of the upper-case form, for the code
  units below 256.
\<close>

definition Canonicalize :: "char \<Rightarrow> nat" where
  "Canonicalize c =
     (let n = of_char c in
      if 97 \<le> n \<and> n \<le> 122 then n - 32
      else if n = 181 then 924
      else if 224 \<le> n \<and> n \<le> 254 \<and> n \<noteq> 247 then n - 32
      else if n = 255 then 376
      else n)"

fun atom_matches :: "atom \<Rightarrow> char \<Rightarrow> bool" where
  "atom_matches (PatternCharacter a) c = (Canonicalize a = Canonicalize c)"
| "atom_matches Dot c = (c \<notin> set LineTerminator)"

text \<open>The pattern matches at the start of the string.\<close>

fun match_here :: "atom list \<Rightarrow> string \<Rightarrow> bool" where
  "match_here [] s = True"
| "match_here (a # as) [] = False"
| "match_here (a # as) (c # cs) = (atom_matches a c \<and> match_here as cs)"

text \<open>The pattern matches at some index of the string, tried from the first on.\<close>

fun regexp_test :: "atom list \<Rightarrow> string \<Rightarrow> bool" where
  "regexp_test as [] = match_here as []"
| "regexp_test as (c # cs) = (match_here as (c # cs) \<or> regexp_test as cs)"

definition new_RegExp :: "runtime \<Rightarrow> string \<Rightarrow> (string \<Rightarrow> bool) option" where
  "new_RegExp rt pattern =
     (case parse_pattern pattern of
        Some atoms \<Rightarrow> Some (regexp_test atoms)
      | None \<Rightarrow> RegExp_other rt pattern)"

section \<open>Route handlers\<close>

record query =
  query_search :: "string option"
  query_department :: "string option"

text \<open>The MongoDB filter that \<open>GET /\<close> builds: the \<open>$or\<close> of the three regular-expression
  conditions when there is one, and the department to equal when there is one.\<close>

record filter_doc =
  filter_or :: "(string \<Rightarrow> bool) option"
  filter_department :: "string option"

definition build_query :: "runtime \<Rightarrow> query \<Rightarrow> error + filter_doc" where
  "build_query rt q =
     (case (case query_search q of
              None \<Rightarrow> Inr None
            | Some s \<Rightarrow>
                if s = [] then Inr None
                else (case new_RegExp rt s of
                        None \<Rightarrow> Inl SyntaxError
                      | Some searchRegex \<Rightarrow> Inr (Some searchRegex))) of
        Inl e \<Rightarrow> Inl e
      | Inr re \<Rightarrow>
          Inr \<lparr>filter_or = re,
               filter_department =
                 (case query_department q of
                    None \<Rightarrow> None
                  | Some d \<Rightarrow> if d \<noteq> [] \<and> d \<noteq> ''All'' then Some d else None)\<rparr>)"

definition or_condition :: "filter_doc \<Rightarrow> patient \<Rightarrow> bool" where
  "or_condition f p \<longleftrightarrow>
     (case filter_or f of
        None \<Rightarrow> True
      | Some re \<Rightarrow> re (fullName p) \<or> re (condition p) \<or> re (roomNumber p))"

definition matches :: "filter_doc \<Rightarrow> patient \<Rightarrow> bool" where
  "matches f p \<longleftrightarrow>
     or_condition f p
     \<and> (case filter_department f of None \<Rightarrow> True | Some d \<Rightarrow> department p = d)"

text \<open>
  \<open>Patient.find(query).sort({ admissionDate: -1 })\<close>: the matching documents by descending
  \<open>admissionDate\<close>, where \<open>null\<close> is below every Date (\<open>None\<close> is the least element of the
  order on \<^typ>\<open>date option\<close>). MongoDB leaves the order of documents with equal keys open; the
  model keeps one.
\<close>

definition Patient_find_sort :: "filter_doc \<Rightarrow> patient list \<Rightarrow> patient list" where
  "Patient_find_sort f docs = map hydrate (rev (sort_key admissionDate (filter (matches f) docs)))"

record stats =
  total :: nat
  critical :: nat
  icu :: nat
  admitted :: nat

definition compute_stats :: "patient list \<Rightarrow> stats" where
  "compute_stats patients =
     \<lparr>total = length patients,
      critical = length (filter (\<lambda>p. status p = ''Critical'') patients),
      icu = length (filter (\<lambda>p. department p = ''ICU'') patients),
      admitted = length (filter (\<lambda>p. status p = ''Admitted'') patients)\<rparr>"

datatype response =
    Redirect string
  | Render_index "patient list" "string option" string stats
  | Render_edit patient
  | Status_send nat string

text \<open>
  \<open>GET /\<close>. The \<open>try\<close> block fails when the search text is not a pattern; the handler then
  answers with status 500.
\<close>

definition get_index :: "runtime \<Rightarrow> query \<Rightarrow> patient list \<Rightarrow> response" where
  "get_index rt q docs =
     (case build_query rt q of
        Inl err \<Rightarrow> Status_send 500 ''Server Error''
      | Inr f \<Rightarrow>
          (let patients = Patient_find_sort f docs
           in Render_index patients (query_search q)
                (case query_department q of None \<Rightarrow> ''All'' | Some d \<Rightarrow> if d = [] then ''All'' else d)
                (compute_stats patients)))"

definition post_add :: "runtime \<Rightarrow> date \<Rightarrow> body \<Rightarrow> patient list \<Rightarrow> response \<times> patient list" where
  "post_add rt now b docs =
     (case Patient_create rt now b docs of
        Inr docs' \<Rightarrow> (Redirect ''/'', docs')
      | Inl err \<Rightarrow> (Redirect ''/?error=Failed to add patient'', docs))"

definition get_edit :: "runtime \<Rightarrow> string \<Rightarrow> patient list \<Rightarrow> response" where
  "get_edit rt id_param docs =
     (case Patient_findById rt id_param docs of
        Inr (Some patient) \<Rightarrow> Render_edit patient
      | Inr None \<Rightarrow> Redirect ''/''
      | Inl err \<Rightarrow> Redirect ''/'')"

definition post_edit :: "runtime \<Rightarrow> string \<Rightarrow> body \<Rightarrow> patient list \<Rightarrow> response \<times> patient list" where
  "post_edit rt id_param b docs =
     (case Patient_findByIdAndUpdate rt id_param b docs of
        Inr docs' \<Rightarrow> (Redirect ''/'', docs')
      | Inl err \<Rightarrow> (Redirect (''/edit/'' @ id_param), docs))"

definition post_delete :: "runtime \<Rightarrow> string \<Rightarrow> patient list \<Rightarrow> response \<times> patient list" where
  "post_delete rt id_param docs =
     (case Patient_findByIdAndDelete rt id_param docs of
        Inr docs' \<Rightarrow> (Redirect ''/'', docs')
      | Inl err \<Rightarrow> (Redirect ''/'', docs))"

section \<open>Notions of the specification\<close>

text \<open>The List request without filters.\<close>

definition unfiltered :: query where
  "unfiltered = \<lparr>query_search = None, query_department = None\<rparr>"

text \<open>
  A text is contained in a field as a case-insensitive substring: some substring of the
  field equals the text up to the case of its characters.
\<close>

definition contains_ignoring_case :: "string \<Rightarrow> string \<Rightarrow> bool" where
  "contains_ignoring_case text field \<longleftrightarrow> sublist (map Canonicalize text) (map Canonicalize field)"

text \<open>A field of the nested \<open>vitals\<close> object of a candidate, when the candidate supplies it.\<close>

definition supplied_vital :: "body \<Rightarrow> (vitals_body \<Rightarrow> string option) \<Rightarrow> string option" where
  "supplied_vital b field = (case body_vitals b of None \<Rightarrow> None | Some v \<Rightarrow> field v)"

text \<open>
  A record matches a candidate: every supplied field holds the candidate's value (trimmed
  for \<open>fullName\<close> and \<open>notes\<close>, converted for the numbers and the date) and every omitted
  optional field holds its documented default.
\<close>

definition matches_candidate :: "runtime \<Rightarrow> date \<Rightarrow> body \<Rightarrow> patient \<Rightarrow> bool" where
  "matches_candidate rt now b p \<longleftrightarrow>
     map_option trim (body_fullName b) = Some (fullName p)
     \<and> castNumber rt (body_age b) = Some (Val (age p))
     \<and> body_condition b = Some (condition p)
     \<and> department p = (case body_department b of None \<Rightarrow> ''General Ward'' | Some d \<Rightarrow> d)
     \<and> status p = (case body_status b of None \<Rightarrow> ''Admitted'' | Some s \<Rightarrow> s)
     \<and> (case supplied_vital b body_heartRate of
          None \<Rightarrow> heartRate (vitals p) = Val (Finite 0)
        | Some h \<Rightarrow> castNumber rt (Some h) = Some (heartRate (vitals p)))
     \<and> bloodPressure (vitals p)
         = Some (case supplied_vital b body_bloodPressure of None \<Rightarrow> ''N/A'' | Some s \<Rightarrow> s)
     \<and> (case supplied_vital b body_temperature of
          None \<Rightarrow> temperature (vitals p) = Val (Finite 36.5)
        | Some t \<Rightarrow> castNumber rt (Some t) = Some (temperature (vitals p)))
     \<and> roomNumber p = (case body_roomNumber b of None \<Rightarrow> ''TBA'' | Some r \<Rightarrow> r)
     \<and> notes p = map_option trim (body_notes b)
     \<and> (case body_admissionDate b of
          None \<Rightarrow> admissionDate p = Some now
        | Some d \<Rightarrow>
            castDate rt (Some d) = Some (case admissionDate p of None \<Rightarrow> Null | Some t \<Rightarrow> Val t))"





text \<open>
  The invariants of the stored records: ids are unique, \<open>fullName\<close> is never empty or made
  of white space only, and \<open>department\<close> and \<open>status\<close> are members of their enumerated sets.
\<close>

definition well_formed :: "patient list \<Rightarrow> bool" where
  "well_formed docs \<longleftrightarrow>
     distinct (map oid docs)
     \<and> (\<forall>p \<in> set docs.
          \<not> set (fullName p) \<subseteq> set WhiteSpace
          \<and> department p \<in> set departments
          \<and> status p \<in> set statuses)"

section \<open>Example data\<close>

definition example_runtime :: runtime where
  "example_runtime =
     \<lparr>StringToNumber = (\<lambda>s. if s = ''42'' then Some (Finite 42) else if s = ''7'' then Some (Finite 7) else None),
      parseDate = (\<lambda>s. None),
      castObjectId = (\<lambda>s. if s = ''1'' then Some 1 else if s = ''2'' then Some 2 else None),
      RegExp_other = (\<lambda>s. None)\<rparr>"

definition default_vitals :: vitals where
  "default_vitals = \<lparr>heartRate = Val (Finite 0), bloodPressure = Some ''N/A'', temperature = Val (Finite 36.5)\<rparr>"

definition john :: patient where
  "john = \<lparr>oid = 1, fullName = ''John Smith'', age = Finite 42, condition = ''Flu'',
           department = ''General Ward'', status = ''Admitted'', vitals = default_vitals,
           roomNumber = ''TBA'', notes = None, admissionDate = Some 1000\<rparr>"

definition johnny :: patient where
  "johnny = \<lparr>oid = 2, fullName = ''Johnny Appleseed'', age = Finite 7, condition = ''Asthma'',
             department = ''ICU'', status = ''Critical'', vitals = default_vitals,
             roomNumber = ''12'', notes = None, admissionDate = Some 2000\<rparr>"

definition mary :: patient where
  "mary = \<lparr>oid = 3, fullName = ''Mary Jones'', age = Finite 42, condition = ''Fracture'',
           department = ''Cardiology'', status = ''Admitted'', vitals = default_vitals,
           roomNumber = ''3B'', notes = Some ''stable'', admissionDate = Some 3000\<rparr>"

definition john_form :: body where
  "john_form =
     \<lparr>body_fullName = Some ''  John Smith '', body_age = Some ''42'', body_condition = Some ''Flu'',
      body_department = None, body_status = None, body_vitals = None, body_roomNumber = None,
      body_notes = None, body_admissionDate = None\<rparr>"

definition blank_name_form :: body where
  "blank_name_form = john_form\<lparr>body_fullName := Some ''   ''\<rparr>"

definition empty_condition_form :: body where
  "empty_condition_form = john_form\<lparr>body_fullName := Some ''John Smith'', body_condition := Some []\<rparr>"

definition blank_name_update :: body where
  "blank_name_update =
     \<lparr>body_fullName = Some ''  '', body_age = None, body_condition = None, body_department = None,
      body_status = None, body_vitals = None, body_roomNumber = Some ''12A'', body_notes = None,
      body_admissionDate = None\<rparr>"



section \<open>Facts about the model\<close>

subsection \<open>Setters, casts and defaults\<close>

lemma trim_eq_Nil_iff: "trim s = [] \<longleftrightarrow> set s \<subseteq> set WhiteSpace"
proof -
  let ?P = "\<lambda>c. c \<in> set WhiteSpace"
  have "trim s = [] \<longleftrightarrow> (\<forall>c \<in> set (dropWhile ?P s). ?P c)"
    by (simp add: trim_def dropWhile_eq_Nil_conv)
  also have "\<dots> \<longleftrightarrow> dropWhile ?P s = []"
  proof
    assume a: "\<forall>c \<in> set (dropWhile ?P s). ?P c"
    show "dropWhile ?P s = []"
    proof (rule ccontr)
      assume n: "dropWhile ?P s \<noteq> []"
      then have "\<not> ?P (hd (dropWhile ?P s))" by (rule hd_dropWhile)
      moreover from n have "hd (dropWhile ?P s) \<in> set (dropWhile ?P s)" by simp
      ultimately show False using a by blast
    qed
  next
    assume e: "dropWhile ?P s = []"
    show "\<forall>c \<in> set (dropWhile ?P s). ?P c" unfolding e by simp
  qed
  also have "\<dots> \<longleftrightarrow> set s \<subseteq> set WhiteSpace"
    by (auto simp: dropWhile_eq_Nil_conv)
  finally show ?thesis .
qed

lemma castNumber_None_arg: "castNumber rt None = Some x \<longleftrightarrow> x = Missing"
  by (auto simp: castNumber_def)

lemma castNumber_convertible:
  "s \<noteq> [] \<Longrightarrow> StringToNumber rt s = Some x \<Longrightarrow> castNumber rt (Some s) = Some (Val x)"
  by (simp add: castNumber_def)

lemma castNumber_total:
  assumes "\<And>s. x = Some s \<Longrightarrow> s = [] \<or> StringToNumber rt s \<noteq> None"
  shows "\<exists>y. castNumber rt x = Some y"
  using assms by (cases x) (auto simp: castNumber_def)

lemma castDate_total:
  assumes "\<And>s. x = Some s \<Longrightarrow> s = [] \<or> parseDate rt s \<noteq> None"
  shows "\<exists>y. castDate rt x = Some y"
  using assms by (cases x) (auto simp: castDate_def)

lemma cast_vitals_total:
  assumes "\<And>s. supplied_vital b body_heartRate = Some s \<Longrightarrow> s = [] \<or> StringToNumber rt s \<noteq> None"
    and "\<And>s. supplied_vital b body_temperature = Some s \<Longrightarrow> s = [] \<or> StringToNumber rt s \<noteq> None"
  shows "\<exists>v. cast_vitals rt (body_vitals b) = Some v"
proof (cases "body_vitals b")
  case None
  then show ?thesis by (simp add: cast_vitals_def)
next
  case (Some vb)
  from assms(1) Some obtain h where h: "castNumber rt (body_heartRate vb) = Some h"
    using castNumber_total [of "body_heartRate vb" rt] by (auto simp: supplied_vital_def)
  from assms(2) Some obtain t where t: "castNumber rt (body_temperature vb) = Some t"
    using castNumber_total [of "body_temperature vb" rt] by (auto simp: supplied_vital_def)
  show ?thesis by (simp add: cast_vitals_def Some h t)
qed

lemma cast_vitals_defaults:
  assumes "cast_vitals rt (body_vitals b) = Some v"
  defines "w \<equiv> vitals_defaults (case v of None \<Rightarrow> no_vitals | Some x \<Rightarrow> x)"
  shows "case supplied_vital b body_heartRate of
           None \<Rightarrow> heartRate w = Val (Finite 0)
         | Some h \<Rightarrow> castNumber rt (Some h) = Some (heartRate w)"
    and "bloodPressure w = Some (case supplied_vital b body_bloodPressure of None \<Rightarrow> ''N/A'' | Some s \<Rightarrow> s)"
    and "case supplied_vital b body_temperature of
           None \<Rightarrow> temperature w = Val (Finite 36.5)
         | Some t \<Rightarrow> castNumber rt (Some t) = Some (temperature w)"
  using assms(1)
  by (auto simp: w_def cast_vitals_def supplied_vital_def vitals_defaults_def no_vitals_def
      applyDefault_def castNumber_def split: option.splits if_splits)

lemma cast_body_Some:
  assumes "cast_body rt b = Some c"
  shows "c_fullName c = map_option trim (body_fullName b)"
    and "castNumber rt (body_age b) = Some (c_age c)"
    and "c_condition c = body_condition b"
    and "c_department c = body_department b"
    and "c_status c = body_status b"
    and "cast_vitals rt (body_vitals b) = Some (c_vitals c)"
    and "c_roomNumber c = body_roomNumber b"
    and "c_notes c = map_option trim (body_notes b)"
    and "castDate rt (body_admissionDate b) = Some (c_admissionDate c)"
  using assms by (auto simp: cast_body_def split: option.splits)

lemma applyDefault_idem [simp]: "applyDefault d (applyDefault d x) = applyDefault d x"
  by (cases x) (simp_all add: applyDefault_def)

lemma vitals_defaults_idem [simp]: "vitals_defaults (vitals_defaults v) = vitals_defaults v"
  by (simp add: vitals_defaults_def split: option.splits)

lemma hydrate_fields [simp]:
  "oid (hydrate p) = oid p" "fullName (hydrate p) = fullName p" "age (hydrate p) = age p"
  "condition (hydrate p) = condition p" "department (hydrate p) = department p"
  "status (hydrate p) = status p" "roomNumber (hydrate p) = roomNumber p"
  "notes (hydrate p) = notes p" "admissionDate (hydrate p) = admissionDate p"
  by (simp_all add: hydrate_def)

subsection \<open>The collection\<close>

lemma fold_max_ge: "(a::nat) \<le> fold max xs a \<and> (\<forall>x \<in> set xs. x \<le> fold max xs a)"
proof (induction xs arbitrary: a)
  case Nil
  show ?case by simp
next
  case (Cons y ys)
  from Cons.IH [of "max y a"] show ?case by auto
qed

lemma ObjectId_fresh: "ObjectId docs \<notin> oid ` set docs"
proof
  assume "ObjectId docs \<in> oid ` set docs"
  then have "ObjectId docs \<in> set (map oid docs)" by simp
  with fold_max_ge [of 0 "map oid docs"] have "ObjectId docs \<le> fold max (map oid docs) 0"
    by blast
  then show False by (simp add: ObjectId_def)
qed

lemma new_document_Some:
  assumes "c_fullName d = Some n" "c_age d = Val a" "c_condition d = Some cd"
    "c_department d = Some dp" "c_status d = Some st" "c_vitals d = Some v"
    "c_roomNumber d = Some r" "c_admissionDate d \<noteq> Missing"
  shows "new_document i d =
     Some \<lparr>oid = i, fullName = n, age = a, condition = cd, department = dp, status = st,
           vitals = v, roomNumber = r, notes = c_notes d,
           admissionDate = (case c_admissionDate d of Val t \<Rightarrow> Some t | _ \<Rightarrow> None)\<rparr>"
  using assms by (cases "c_admissionDate d") (simp_all add: new_document_def)

lemma Patient_create_rejects:
  assumes "\<And>c. cast_body rt b = Some c \<Longrightarrow>
      c_fullName c = None \<or> c_fullName c = Some [] \<or> c_age c = Missing \<or> c_age c = Null
      \<or> c_condition c = None \<or> c_condition c = Some []
      \<or> (\<exists>d. c_department c = Some d \<and> d \<notin> set departments)
      \<or> (\<exists>s. c_status c = Some s \<and> s \<notin> set statuses)"
  shows "Patient_create rt now b docs = Inl ValidationError"
proof (cases "cast_body rt b")
  case None
  then show ?thesis by (simp add: Patient_create_def)
next
  case (Some c)
  from assms [OF Some]
  have "\<not> validate (with_defaults now c)"
    by (auto simp: validate_def with_defaults_def requiredString_def requiredNumber_def
        enumValidator_def)
  then show ?thesis
    by (simp add: Patient_create_def Some Let_def)
qed

lemma Patient_create_accepts:
  assumes fn: "body_fullName b = Some n" "\<not> set n \<subseteq> set WhiteSpace"
    and ag: "body_age b = Some a" "a \<noteq> []" "StringToNumber rt a \<noteq> None"
    and cd: "body_condition b = Some c" "c \<noteq> []"
    and dp: "\<And>d. body_department b = Some d \<Longrightarrow> d \<in> set departments"
    and st: "\<And>s. body_status b = Some s \<Longrightarrow> s \<in> set statuses"
    and hr: "\<And>h. supplied_vital b body_heartRate = Some h \<Longrightarrow> h = [] \<or> StringToNumber rt h \<noteq> None"
    and tp: "\<And>t. supplied_vital b body_temperature = Some t \<Longrightarrow> t = [] \<or> StringToNumber rt t \<noteq> None"
    and ad: "\<And>d. body_admissionDate b = Some d \<Longrightarrow> d = [] \<or> parseDate rt d \<noteq> None"
  shows "\<exists>p. Patient_create rt now b docs = Inr (docs @ [p]) \<and> oid p = ObjectId docs
           \<and> matches_candidate rt now b p \<and> hydrate p = p"
proof -
  from ag obtain x where x: "StringToNumber rt a = Some x" by blast
  have cage: "castNumber rt (body_age b) = Some (Val x)"
    by (simp add: ag castNumber_convertible x)
  from cast_vitals_total [of b rt] hr tp obtain v where v: "cast_vitals rt (body_vitals b) = Some v"
    by blast
  from castDate_total [of "body_admissionDate b" rt] ad
  obtain t where t: "castDate rt (body_admissionDate b) = Some t"
    by blast
  define cb where "cb = \<lparr>c_fullName = Some (trim n), c_age = Val x, c_condition = Some c,
      c_department = body_department b, c_status = body_status b, c_vitals = v,
      c_roomNumber = body_roomNumber b, c_notes = map_option trim (body_notes b),
      c_admissionDate = t\<rparr>"
  have cb: "cast_body rt b = Some cb"
    by (simp add: cast_body_def cage v t cb_def fn cd)
  define w where "w = vitals_defaults (case v of None \<Rightarrow> no_vitals | Some y \<Rightarrow> y)"
  define dpt where "dpt = (case body_department b of None \<Rightarrow> ''General Ward'' | Some d \<Rightarrow> d)"
  define sts where "sts = (case body_status b of None \<Rightarrow> ''Admitted'' | Some s \<Rightarrow> s)"
  define rn where "rn = (case body_roomNumber b of None \<Rightarrow> ''TBA'' | Some r \<Rightarrow> r)"
  let ?d = "with_defaults now cb"
  have d1: "c_fullName ?d = Some (trim n)" "c_age ?d = Val x" "c_condition ?d = Some c"
    "c_department ?d = Some dpt" "c_status ?d = Some sts" "c_vitals ?d = Some w"
    "c_roomNumber ?d = Some rn" "c_notes ?d = map_option trim (body_notes b)"
    "c_admissionDate ?d = applyDefault now t"
    by (simp_all add: with_defaults_def cb_def w_def dpt_def sts_def rn_def split: option.splits)
  have tn: "trim n \<noteq> []"
    using fn(2) by (simp add: trim_eq_Nil_iff)
  have dpt_ok: "dpt \<in> set departments"
    using dp by (cases "body_department b") (simp_all add: dpt_def departments_def)
  have sts_ok: "sts \<in> set statuses"
    using st by (cases "body_status b") (simp_all add: sts_def statuses_def)
  have dpt_ne: "dpt \<noteq> []"
    using dpt_ok by (auto simp: departments_def)
  have val: "validate ?d"
    by (simp add: validate_def d1 requiredString_def requiredNumber_def enumValidator_def
        tn cd dpt_ok sts_ok dpt_ne)
  have nm: "applyDefault now t \<noteq> Missing"
    by (cases t) (simp_all add: applyDefault_def)
  define p where "p = \<lparr>oid = ObjectId docs, fullName = trim n, age = x, condition = c,
      department = dpt, status = sts, vitals = w, roomNumber = rn,
      notes = map_option trim (body_notes b),
      admissionDate = (case applyDefault now t of Val u \<Rightarrow> Some u | _ \<Rightarrow> None)\<rparr>"
  have nd: "new_document (ObjectId docs) ?d = Some p"
    using new_document_Some [of ?d "trim n" x c dpt sts w rn "ObjectId docs"] d1 nm
    by (simp add: p_def)
  have cr: "Patient_create rt now b docs = Inr (docs @ [p])"
    by (simp add: Patient_create_def cb Let_def val nd)
  have adm: "case body_admissionDate b of
          None \<Rightarrow> admissionDate p = Some now
        | Some d \<Rightarrow>
            castDate rt (Some d) = Some (case admissionDate p of None \<Rightarrow> Null | Some u \<Rightarrow> Val u)"
  proof (cases "body_admissionDate b")
    case None
    with t have "t = Missing" by (simp add: castDate_def)
    then show ?thesis by (simp add: None p_def applyDefault_def)
  next
    case (Some d)
    with t have "t \<noteq> Missing" by (auto simp: castDate_def split: if_splits)
    then show ?thesis using t by (cases t) (simp_all add: Some p_def applyDefault_def)
  qed
  note vit = cast_vitals_defaults [OF v, folded w_def]
  have pf: "fullName p = trim n" "age p = x" "condition p = c" "department p = dpt"
    "status p = sts" "vitals p = w" "roomNumber p = rn"
    "notes p = map_option trim (body_notes b)"
    by (simp_all add: p_def)
  have mc: "matches_candidate rt now b p"
    unfolding matches_candidate_def pf
    using vit adm
    by (simp add: fn cage cd dpt_def sts_def rn_def)
  have hy: "hydrate p = p"
    by (simp add: hydrate_def p_def w_def)
  show ?thesis
    using cr mc hy by (intro exI [of _ p]) (simp add: p_def)
qed







lemma deleteOne_distinct:
  "distinct (map oid docs) \<Longrightarrow> deleteOne i docs = filter (\<lambda>p. oid p \<noteq> i) docs"
proof (induction docs)
  case Nil
  show ?case by simp
next
  case (Cons p ps)
  show ?case
  proof (cases "oid p = i")
    case True
    with Cons.prems have "i \<notin> oid ` set ps" by simp
    then have "\<forall>q \<in> set ps. oid q \<noteq> i" by blast
    then have "filter (\<lambda>p. oid p \<noteq> i) ps = ps" by simp
    with True show ?thesis by simp
  next
    case False
    with Cons show ?thesis by simp
  qed
qed

lemma deleteOne_absent: "i \<notin> oid ` set docs \<Longrightarrow> deleteOne i docs = docs"
  by (induction docs) auto

subsection \<open>The list view\<close>

lemma length_filter_disjoint:
  "(\<And>x. \<not> (P x \<and> Q x)) \<Longrightarrow> length (filter P xs) + length (filter Q xs) \<le> length xs"
  by (induction xs) auto

lemma get_index_Render:
  "get_index rt q docs = Render_index patients s d st \<Longrightarrow>
   \<exists>f. build_query rt q = Inr f \<and> patients = Patient_find_sort f docs \<and> st = compute_stats patients"
  by (auto simp: get_index_def Let_def split: sum.splits)

lemma mset_Patient_find_sort:
  "mset (Patient_find_sort f docs) = image_mset hydrate (filter_mset (matches f) (mset docs))"
  by (simp add: Patient_find_sort_def)

lemma set_Patient_find_sort:
  "set (Patient_find_sort f docs) = hydrate ` {p \<in> set docs. matches f p}"
  by (simp add: Patient_find_sort_def)

lemma size_filter_image_hydrate:
  "(\<And>p. P (hydrate p) = P p) \<Longrightarrow>
   size (filter_mset P (image_mset hydrate M)) = size (filter_mset P M)"
  by (induction M) auto


lemma matches_no_filter [simp]: "matches \<lparr>filter_or = None, filter_department = None\<rparr> p"
  by (simp add: matches_def or_condition_def)

lemma get_index_unfiltered:
  "get_index rt unfiltered docs =
     Render_index (Patient_find_sort \<lparr>filter_or = None, filter_department = None\<rparr> docs) None ''All''
       (compute_stats (Patient_find_sort \<lparr>filter_or = None, filter_department = None\<rparr> docs))"
  by (simp add: get_index_def build_query_def unfiltered_def Let_def)


subsection \<open>The search pattern\<close>

lemma parse_atom_PatternCharacter:
  "c \<notin> set SyntaxCharacter \<Longrightarrow> parse_atom c = Some (PatternCharacter c)"
  by (auto simp: parse_atom_def SyntaxCharacter_def)

lemma parse_pattern_PatternCharacters:
  "set s \<inter> set SyntaxCharacter = {} \<Longrightarrow> parse_pattern s = Some (map PatternCharacter s)"
  by (induction s) (auto simp: parse_pattern_def parse_atom_PatternCharacter)

lemma match_here_PatternCharacters:
  "match_here (map PatternCharacter s) t \<longleftrightarrow> prefix (map Canonicalize s) (map Canonicalize t)"
proof (induction s arbitrary: t)
  case Nil
  show ?case by simp
next
  case (Cons a s)
  show ?case by (cases t) (simp_all add: Cons.IH)
qed

lemma regexp_test_PatternCharacters:
  "regexp_test (map PatternCharacter s) t \<longleftrightarrow> sublist (map Canonicalize s) (map Canonicalize t)"
proof (induction t)
  case Nil
  show ?case by (cases s) simp_all
next
  case (Cons c t)
  show ?case
    by (simp add: Cons.IH match_here_PatternCharacters sublist_Cons_right del: match_here.simps)
qed

lemma new_RegExp_PatternCharacters:
  "set s \<inter> set SyntaxCharacter = {} \<Longrightarrow>
   new_RegExp rt s = Some (contains_ignoring_case s)"
  by (auto simp: new_RegExp_def parse_pattern_PatternCharacters regexp_test_PatternCharacters
      contains_ignoring_case_def)

lemma of_char_inj_nat: "(of_char c :: nat) = of_char c' \<Longrightarrow> c = c'"
  by simp

lemma Canonicalize_SyntaxCharacter:
  assumes "Canonicalize c = Canonicalize c'" and "c' \<in> set SyntaxCharacter"
  shows "c = c'"
proof (rule of_char_inj_nat)
  from assms(2) have "c' \<in> {CHR ''^'', CHR ''$'', CHR 0x5C, CHR ''.'', CHR ''*'', CHR ''+'', CHR ''?'',
      CHR ''('', CHR '')'', CHR ''['', CHR '']'', CHR ''{'', CHR ''}'', CHR ''|''}"
    by (simp add: SyntaxCharacter_def)
  then show "(of_char c :: nat) = of_char c'"
    using assms(1)
    by (elim insertE emptyE; simp add: Canonicalize_def Let_def del: of_char_eq_iff split: if_splits)
qed

lemma same_case_SyntaxCharacter:
  assumes "map Canonicalize s' = map Canonicalize s"
  shows "set s' \<inter> set SyntaxCharacter = {} \<longleftrightarrow> set s \<inter> set SyntaxCharacter = {}"
  using assms
proof (induction s arbitrary: s')
  case Nil
  then show ?case by simp
next
  case (Cons c s)
  then obtain c' t where s': "s' = c' # t" and c: "Canonicalize c' = Canonicalize c"
    and t: "map Canonicalize t = map Canonicalize s"
    by (cases s') auto
  have "c' \<in> set SyntaxCharacter \<longleftrightarrow> c \<in> set SyntaxCharacter"
    using c Canonicalize_SyntaxCharacter [of c c'] Canonicalize_SyntaxCharacter [of c' c]
    by auto
  with Cons.IH [OF t] show ?case by (simp add: s')
qed

lemma build_query_search:
  assumes "s \<noteq> []" and "set s \<inter> set SyntaxCharacter = {}" and "query_search q = Some s"
  shows "build_query rt q =
     Inr \<lparr>filter_or = Some (contains_ignoring_case s),
          filter_department =
            (case query_department q of
               None \<Rightarrow> None
             | Some d \<Rightarrow> if d \<noteq> [] \<and> d \<noteq> ''All'' then Some d else None)\<rparr>"
  using assms by (simp add: build_query_def new_RegExp_PatternCharacters)

lemma contains_ignoring_case_cong:
  "map Canonicalize s' = map Canonicalize s \<Longrightarrow> contains_ignoring_case s' = contains_ignoring_case s"
  by (rule ext) (simp add: contains_ignoring_case_def)

subsection \<open>The invariants are kept by the handlers that write\<close>

lemma dropWhile_rev_hd:
  assumes "xs \<noteq> []" "\<not> P (hd xs)"
  shows "rev (dropWhile P (rev xs)) \<noteq> [] \<and> hd (rev (dropWhile P (rev xs))) = hd xs"
proof -
  from assms obtain x ys where xs: "xs = x # ys" and x: "\<not> P x"
    by (cases xs) auto
  have "dropWhile P (rev ys @ [x]) = dropWhile P (rev ys) @ [x]"
    using x by (simp add: dropWhile_append)
  then show ?thesis
    by (simp add: xs)
qed

lemma trim_not_blank:
  assumes "trim s \<noteq> []"
  shows "\<not> set (trim s) \<subseteq> set WhiteSpace"
proof -
  let ?P = "\<lambda>c. c \<in> set WhiteSpace"
  let ?t = "dropWhile ?P s"
  have t: "?t \<noteq> []"
  proof
    assume e: "?t = []"
    have "trim s = []" unfolding trim_def e by simp
    with assms show False by simp
  qed
  then have h: "\<not> ?P (hd ?t)" by (rule hd_dropWhile)
  from dropWhile_rev_hd [of ?t ?P, OF t h] have e: "hd (trim s) = hd ?t" by (simp add: trim_def)
  from assms have "hd (trim s) \<in> set (trim s)" by (rule hd_in_set)
  moreover have "hd (trim s) \<notin> set WhiteSpace" unfolding e by (rule h)
  ultimately show ?thesis by blast
qed

lemma new_document_fields:
  assumes "new_document i d = Some p"
  shows "oid p = i" and "c_fullName d = Some (fullName p)"
    and "c_department d = Some (department p)" and "c_status d = Some (status p)"
  using assms by (auto simp: new_document_def split: option.splits slot.splits)

lemma Patient_create_Inr:
  assumes "Patient_create rt now b docs = Inr docs'"
  shows "\<exists>c p. cast_body rt b = Some c \<and> validate (with_defaults now c)
     \<and> new_document (ObjectId docs) (with_defaults now c) = Some p \<and> docs' = docs @ [p]"
  using assms by (auto simp: Patient_create_def Let_def split: option.splits if_splits)

lemma post_add_well_formed:
  assumes "well_formed docs"
  shows "well_formed (snd (post_add rt now b docs))"
proof (cases "Patient_create rt now b docs")
  case (Inl e)
  with assms show ?thesis by (simp add: post_add_def)
next
  case (Inr docs')
  then obtain c p where c: "cast_body rt b = Some c" and v: "validate (with_defaults now c)"
    and n: "new_document (ObjectId docs) (with_defaults now c) = Some p" and d: "docs' = docs @ [p]"
    by (blast dest: Patient_create_Inr)
  note f = new_document_fields [OF n]
  have fn: "c_fullName (with_defaults now c) = map_option trim (body_fullName b)"
    by (simp add: with_defaults_def cast_body_Some(1) [OF c])
  from v f(2) have "fullName p \<noteq> []" by (simp add: validate_def requiredString_def)
  moreover from fn f(2) have "map_option trim (body_fullName b) = Some (fullName p)" by simp
  then obtain s where "trim s = fullName p" by (cases "body_fullName b") auto
  ultimately have 1: "\<not> set (fullName p) \<subseteq> set WhiteSpace"
    by (metis trim_not_blank)
  from v f(3) have 2: "department p \<in> set departments"
    by (simp add: validate_def enumValidator_def)
  from v f(4) have 3: "status p \<in> set statuses"
    by (simp add: validate_def enumValidator_def)
  have 4: "oid p \<notin> oid ` set docs"
    by (simp only: f(1) ObjectId_fresh not_False_eq_True)
  from assms 1 2 3 4 show ?thesis
    by (simp add: post_add_def Inr d well_formed_def)
qed

lemma apply_set_oid [simp]: "oid (apply_set c p) = oid p"
  by (simp add: apply_set_def)

lemma map_oid_updateOne: "map oid (updateOne i (apply_set c) docs) = map oid docs"
  by (induction docs) simp_all

lemma set_updateOne: "set (updateOne i f docs) \<subseteq> set docs \<union> f ` set docs"
  by (induction docs) auto

lemma apply_set_well_formed:
  assumes c: "cast_body rt b = Some c" and v: "updateValidators c"
    and p: "\<not> set (fullName p) \<subseteq> set WhiteSpace" "department p \<in> set departments"
      "status p \<in> set statuses"
  shows "\<not> set (fullName (apply_set c p)) \<subseteq> set WhiteSpace
     \<and> department (apply_set c p) \<in> set departments
     \<and> status (apply_set c p) \<in> set statuses"
proof -
  have 1: "\<not> set (fullName (apply_set c p)) \<subseteq> set WhiteSpace"
  proof (cases "c_fullName c")
    case None
    with p(1) show ?thesis by (simp add: apply_set_def)
  next
    case (Some n)
    with v have "n \<noteq> []" by (simp add: updateValidators_def requiredString_def)
    moreover from Some cast_body_Some(1) [OF c] have "map_option trim (body_fullName b) = Some n"
      by simp
    then obtain s where "trim s = n" by (cases "body_fullName b") auto
    ultimately have "\<not> set n \<subseteq> set WhiteSpace" by (metis trim_not_blank)
    with Some show ?thesis by (simp add: apply_set_def)
  qed
  have 2: "department (apply_set c p) \<in> set departments"
    using v p(2) by (cases "c_department c") (simp_all add: apply_set_def updateValidators_def enumValidator_def)
  have 3: "status (apply_set c p) \<in> set statuses"
    using v p(3) by (cases "c_status c") (simp_all add: apply_set_def updateValidators_def enumValidator_def)
  from 1 2 3 show ?thesis by blast
qed

lemma post_edit_well_formed:
  assumes "well_formed docs"
  shows "well_formed (snd (post_edit rt id_param b docs))"
proof (cases "Patient_findByIdAndUpdate rt id_param b docs")
  case (Inl e)
  with assms show ?thesis by (simp add: post_edit_def)
next
  case (Inr docs')
  then obtain i c where c: "cast_body rt b = Some c" and v: "updateValidators c"
    and d: "docs' = updateOne i (apply_set c) docs"
    by (auto simp: Patient_findByIdAndUpdate_def split: option.splits if_splits)
  have "\<not> set (fullName q) \<subseteq> set WhiteSpace \<and> department q \<in> set departments
        \<and> status q \<in> set statuses" if "q \<in> set docs'" for q
  proof -
    from that d set_updateOne [of i "apply_set c" docs]
    consider "q \<in> set docs" | p where "p \<in> set docs" "q = apply_set c p" by auto
    then show ?thesis
    proof cases
      case 1
      with assms show ?thesis by (simp add: well_formed_def)
    next
      case 2
      with assms apply_set_well_formed [OF c v, of p] show ?thesis
        by (simp add: well_formed_def)
    qed
  qed
  with assms show ?thesis
    by (simp add: post_edit_def Inr well_formed_def d map_oid_updateOne)
qed

lemma set_deleteOne: "set (deleteOne i docs) \<subseteq> set docs"
  by (induction docs) auto

lemma distinct_deleteOne: "distinct (map oid docs) \<Longrightarrow> distinct (map oid (deleteOne i docs))"
  by (simp add: deleteOne_distinct distinct_map_filter)

lemma post_delete_well_formed:
  assumes "well_formed docs"
  shows "well_formed (snd (post_delete rt id_param docs))"
proof (cases "castObjectId rt id_param")
  case None
  with assms show ?thesis by (simp add: post_delete_def Patient_findByIdAndDelete_def)
next
  case (Some i)
  with assms set_deleteOne [of i docs] show ?thesis
    by (auto simp: post_delete_def Patient_findByIdAndDelete_def well_formed_def distinct_deleteOne)
qed

subsection \<open>The example data\<close>

lemma example_list:
  "get_index example_runtime unfiltered [john, johnny, mary]
   = Render_index [mary, johnny, john] None ''All''
       \<lparr>total = 3, critical = 1, icu = 1, admitted = 2\<rparr>"
  by (simp add: get_index_def build_query_def unfiltered_def Let_def Patient_find_sort_def
      matches_def or_condition_def compute_stats_def hydrate_def vitals_defaults_def
      applyDefault_def john_def johnny_def mary_def default_vitals_def)

lemma example_create: "post_add example_runtime 1000 john_form [] = (Redirect ''/'', [john])"
  by (simp add: post_add_def Patient_create_def cast_body_def castNumber_def castDate_def
      cast_vitals_def john_form_def example_runtime_def with_defaults_def validate_def
      requiredString_def requiredNumber_def enumValidator_def departments_def statuses_def
      new_document_def applyDefault_def vitals_defaults_def no_vitals_def ObjectId_def
      trim_def WhiteSpace_def john_def default_vitals_def Let_def)

lemma example_list_john:
  "get_index example_runtime unfiltered [john]
   = Render_index [john] None ''All'' \<lparr>total = 1, critical = 0, icu = 0, admitted = 1\<rparr>"
  by (simp add: get_index_def build_query_def unfiltered_def Let_def Patient_find_sort_def
      matches_def or_condition_def compute_stats_def hydrate_def vitals_defaults_def
      applyDefault_def john_def default_vitals_def)

section \<open>Properties of the specification\<close>

text \<open>
  C1. A candidate record whose \<open>fullName\<close> is missing, empty or made of white space only,
  or whose \<open>age\<close> is missing, or whose \<open>condition\<close> is missing, or whose supplied
  \<open>department\<close> or \<open>status\<close> is not in its enumerated set, is rejected: Create fails with a
  ValidationError, the handler redirects to the list view with the error indicator, and the
  collection is unchanged.
\<close>

theorem create_rejects_invalid:
  assumes "body_fullName b = None \<or> (\<exists>s. body_fullName b = Some s \<and> set s \<subseteq> set WhiteSpace)
         \<or> body_age b = None \<or> body_condition b = None
         \<or> (\<exists>d. body_department b = Some d \<and> d \<notin> set departments)
         \<or> (\<exists>s. body_status b = Some s \<and> s \<notin> set statuses)"
  shows "Patient_create rt now b docs = Inl ValidationError
       \<and> post_add rt now b docs = (Redirect ''/?error=Failed to add patient'', docs)"
proof -
  have "Patient_create rt now b docs = Inl ValidationError"
  proof (rule Patient_create_rejects)
    fix c
    assume c: "cast_body rt b = Some c"
    note f = cast_body_Some [OF c]
    let ?goal = "c_fullName c = None \<or> c_fullName c = Some [] \<or> c_age c = Missing \<or> c_age c = Null
      \<or> c_condition c = None \<or> c_condition c = Some []
      \<or> (\<exists>d. c_department c = Some d \<and> d \<notin> set departments)
      \<or> (\<exists>s. c_status c = Some s \<and> s \<notin> set statuses)"
    from assms show ?goal
    proof (elim disjE exE conjE)
      assume "body_fullName b = None"
      then show ?goal by (simp add: f(1))
    next
      fix s assume "body_fullName b = Some s" "set s \<subseteq> set WhiteSpace"
      then show ?goal by (simp add: f(1) trim_eq_Nil_iff)
    next
      assume "body_age b = None"
      with f(2) have "c_age c = Missing" by (simp add: castNumber_None_arg)
      then show ?goal by simp
    next
      assume "body_condition b = None"
      then show ?goal by (simp add: f(3))
    next
      fix d assume "body_department b = Some d" "d \<notin> set departments"
      then show ?goal by (simp add: f(4))
    next
      fix s assume "body_status b = Some s" "s \<notin> set statuses"
      then show ?goal by (simp add: f(5))
    qed
  qed
  then show ?thesis by (simp add: post_add_def)
qed

theorem create_rejects_invalid_witness:
  "body_fullName blank_name_form = Some ''   '' \<and> set ''   '' \<subseteq> set WhiteSpace
   \<and> Patient_create example_runtime 1000 blank_name_form [john] = Inl ValidationError
   \<and> post_add example_runtime 1000 blank_name_form [john]
       = (Redirect ''/?error=Failed to add patient'', [john])"
proof -
  have h: "body_fullName blank_name_form = Some ''   '' \<and> set ''   '' \<subseteq> set WhiteSpace"
    by (simp add: blank_name_form_def john_form_def WhiteSpace_def)
  then have "body_fullName blank_name_form = None
      \<or> (\<exists>s. body_fullName blank_name_form = Some s \<and> set s \<subseteq> set WhiteSpace)
      \<or> body_age blank_name_form = None \<or> body_condition blank_name_form = None
      \<or> (\<exists>d. body_department blank_name_form = Some d \<and> d \<notin> set departments)
      \<or> (\<exists>s. body_status blank_name_form = Some s \<and> s \<notin> set statuses)"
    by blast
  from create_rejects_invalid [OF this, of example_runtime 1000 "[john]"] h
  show ?thesis by simp
qed

text \<open>
  C2, as the claim states it, fails: a candidate whose \<open>condition\<close> is present but empty
  satisfies the claim's conditions (name non-empty after trimming, age and condition present,
  no department or status supplied), and Create rejects it.
\<close>

theorem create_then_list_counterexample:
  "body_fullName empty_condition_form = Some ''John Smith'' \<and> trim ''John Smith'' \<noteq> []
   \<and> body_age empty_condition_form = Some ''42''
   \<and> StringToNumber example_runtime ''42'' = Some (Finite 42)
   \<and> body_condition empty_condition_form = Some []
   \<and> body_department empty_condition_form = None \<and> body_status empty_condition_form = None
   \<and> post_add example_runtime 1000 empty_condition_form []
       = (Redirect ''/?error=Failed to add patient'', [])"
  by (simp add: post_add_def Patient_create_def cast_body_def castNumber_def castDate_def
      cast_vitals_def empty_condition_form_def john_form_def example_runtime_def
      with_defaults_def validate_def requiredString_def requiredNumber_def trim_def
      WhiteSpace_def Let_def)

text \<open>
  C2, amended. For every candidate record with \<open>fullName\<close> non-empty after trimming, \<open>age\<close>
  supplied, non-empty and convertible to a number, \<open>condition\<close> supplied and non-empty, any
  supplied \<open>department\<close> and \<open>status\<close> in their enumerated sets, and any supplied
  \<open>vitals.heartRate\<close>, \<open>vitals.temperature\<close> and \<open>admissionDate\<close> empty or convertible,
  Create succeeds; the collection gains exactly one record, with a new id, that matches the
  candidate, every omitted optional field holding its default (\<open>department\<close> "General Ward",
  \<open>status\<close> "Admitted", \<open>vitals.heartRate\<close> 0, \<open>vitals.bloodPressure\<close> "N/A",
  \<open>vitals.temperature\<close> 36.5, \<open>roomNumber\<close> "TBA", \<open>admissionDate\<close> the creation time); and
  the unfiltered List after the Create is the one before it plus that record.
\<close>

theorem create_then_list:
  assumes "\<exists>n. body_fullName b = Some n \<and> \<not> set n \<subseteq> set WhiteSpace"
    and "\<exists>a. body_age b = Some a \<and> a \<noteq> [] \<and> StringToNumber rt a \<noteq> None"
    and "\<exists>c. body_condition b = Some c \<and> c \<noteq> []"
    and "\<forall>d. body_department b = Some d \<longrightarrow> d \<in> set departments"
    and "\<forall>s. body_status b = Some s \<longrightarrow> s \<in> set statuses"
    and "\<forall>h. supplied_vital b body_heartRate = Some h \<longrightarrow> h = [] \<or> StringToNumber rt h \<noteq> None"
    and "\<forall>t. supplied_vital b body_temperature = Some t \<longrightarrow> t = [] \<or> StringToNumber rt t \<noteq> None"
    and "\<forall>d. body_admissionDate b = Some d \<longrightarrow> d = [] \<or> parseDate rt d \<noteq> None"
  shows "\<exists>p. post_add rt now b docs = (Redirect ''/'', docs @ [p])
     \<and> oid p \<notin> oid ` set docs
     \<and> matches_candidate rt now b p
     \<and> (\<exists>before after st st'.
          get_index rt unfiltered docs = Render_index before None ''All'' st
          \<and> get_index rt unfiltered (docs @ [p]) = Render_index after None ''All'' st'
          \<and> mset after = add_mset p (mset before))"
proof -
  from assms obtain n a c where "body_fullName b = Some n" "\<not> set n \<subseteq> set WhiteSpace"
    "body_age b = Some a" "a \<noteq> []" "StringToNumber rt a \<noteq> None"
    "body_condition b = Some c" "c \<noteq> []"
    by blast
  with assms(4-8) obtain p where cr: "Patient_create rt now b docs = Inr (docs @ [p])"
    and o: "oid p = ObjectId docs" and mc: "matches_candidate rt now b p" and hy: "hydrate p = p"
    using Patient_create_accepts [of b n a rt c now docs] by blast
  have 1: "post_add rt now b docs = (Redirect ''/'', docs @ [p])"
    by (simp add: post_add_def cr)
  have 2: "oid p \<notin> oid ` set docs"
    by (simp only: o ObjectId_fresh not_False_eq_True)
  have 3: "mset (Patient_find_sort \<lparr>filter_or = None, filter_department = None\<rparr> (docs @ [p]))
      = add_mset p (mset (Patient_find_sort \<lparr>filter_or = None, filter_department = None\<rparr> docs))"
    by (simp add: mset_Patient_find_sort hy)
  show ?thesis
    using 1 2 mc 3 by (intro exI [of _ p]) (simp add: get_index_unfiltered)
qed

theorem create_then_list_witness:
  "post_add example_runtime 1000 john_form [] = (Redirect ''/'', [john])
   \<and> oid john \<notin> oid ` set []
   \<and> matches_candidate example_runtime 1000 john_form john
   \<and> get_index example_runtime unfiltered [] = Render_index [] None ''All''
        \<lparr>total = 0, critical = 0, icu = 0, admitted = 0\<rparr>
   \<and> get_index example_runtime unfiltered [john] = Render_index [john] None ''All''
        \<lparr>total = 1, critical = 0, icu = 0, admitted = 1\<rparr>"
proof -
  have 1: "\<exists>n. body_fullName john_form = Some n \<and> \<not> set n \<subseteq> set WhiteSpace"
    by (simp add: john_form_def WhiteSpace_def)
  have 2: "\<exists>a. body_age john_form = Some a \<and> a \<noteq> [] \<and> StringToNumber example_runtime a \<noteq> None"
    by (simp add: john_form_def example_runtime_def)
  have 3: "\<exists>c. body_condition john_form = Some c \<and> c \<noteq> []"
    by (simp add: john_form_def)
  have 4: "\<forall>d. body_department john_form = Some d \<longrightarrow> d \<in> set departments"
    and 5: "\<forall>s. body_status john_form = Some s \<longrightarrow> s \<in> set statuses"
    and 6: "\<forall>h. supplied_vital john_form body_heartRate = Some h \<longrightarrow>
               h = [] \<or> StringToNumber example_runtime h \<noteq> None"
    and 7: "\<forall>t. supplied_vital john_form body_temperature = Some t \<longrightarrow>
               t = [] \<or> StringToNumber example_runtime t \<noteq> None"
    and 8: "\<forall>d. body_admissionDate john_form = Some d \<longrightarrow>
               d = [] \<or> parseDate example_runtime d \<noteq> None"
    by (simp_all add: john_form_def supplied_vital_def)
  from create_then_list [OF 1 2 3 4 5 6 7 8, of 1000 "[]"]
  obtain p where p: "post_add example_runtime 1000 john_form [] = (Redirect ''/'', [] @ [p])"
    and m: "matches_candidate example_runtime 1000 john_form p"
    by blast
  from p have j: "p = john" by (simp add: example_create)
  have e: "get_index example_runtime unfiltered [] = Render_index [] None ''All''
        \<lparr>total = 0, critical = 0, icu = 0, admitted = 0\<rparr>"
    by (simp add: get_index_unfiltered Patient_find_sort_def compute_stats_def)
  from m show ?thesis
    by (simp add: j e example_create example_list_john)
qed

text \<open>
  C3, as the claim states it, fails: the search text is compiled as a pattern, so the search
  text "." accepts a record none of whose three fields contains a full stop.
\<close>

theorem search_predicate_counterexample:
  "get_index example_runtime \<lparr>query_search = Some ''.'', query_department = None\<rparr> [john]
     = Render_index [john] (Some ''.'') ''All'' \<lparr>total = 1, critical = 0, icu = 0, admitted = 1\<rparr>
   \<and> \<not> contains_ignoring_case ''.'' (fullName john)
   \<and> \<not> contains_ignoring_case ''.'' (condition john)
   \<and> \<not> contains_ignoring_case ''.'' (roomNumber john)"
  by (simp add: get_index_def build_query_def new_RegExp_def parse_pattern_def parse_atom_def
      Let_def Patient_find_sort_def LineTerminator_def matches_def or_condition_def
      compute_stats_def hydrate_def vitals_defaults_def applyDefault_def john_def
      default_vitals_def contains_ignoring_case_def Canonicalize_def sublist_code)

text \<open>
  C3, amended. For every non-empty search string that contains none of the pattern syntax
  characters (the members of \<open>SyntaxCharacter\<close>) and every patient record, the search
  predicate built by the List operation accepts the record if and only if the record's
  \<open>fullName\<close> or \<open>condition\<close> or \<open>roomNumber\<close> contains the search text as a case-insensitive
  substring; and a query string that differs from it in the case of its characters only
  builds the same filter and lists the same records with the same stats.
\<close>

theorem search_literal_text:
  assumes "s \<noteq> []" and "set s \<inter> set SyntaxCharacter = {}" and "query_search q = Some s"
  shows "\<exists>f. build_query rt q = Inr f
     \<and> (\<forall>p. or_condition f p \<longleftrightarrow>
           contains_ignoring_case s (fullName p) \<or> contains_ignoring_case s (condition p)
           \<or> contains_ignoring_case s (roomNumber p))
     \<and> (\<forall>s'. map Canonicalize s' = map Canonicalize s \<longrightarrow>
           build_query rt (q\<lparr>query_search := Some s'\<rparr>) = Inr f
           \<and> (\<forall>docs. \<exists>patients cur st.
                 get_index rt q docs = Render_index patients (Some s) cur st
                 \<and> get_index rt (q\<lparr>query_search := Some s'\<rparr>) docs = Render_index patients (Some s') cur st))"
proof -
  let ?f = "\<lparr>filter_or = Some (contains_ignoring_case s),
          filter_department =
            (case query_department q of
               None \<Rightarrow> None
             | Some d \<Rightarrow> if d \<noteq> [] \<and> d \<noteq> ''All'' then Some d else None)\<rparr>"
  have f: "build_query rt q = Inr ?f"
    using assms by (rule build_query_search)
  have o: "\<forall>p. or_condition ?f p \<longleftrightarrow>
           contains_ignoring_case s (fullName p) \<or> contains_ignoring_case s (condition p)
           \<or> contains_ignoring_case s (roomNumber p)"
    by (simp add: or_condition_def)
  have c: "build_query rt (q\<lparr>query_search := Some s'\<rparr>) = Inr ?f"
    if eq: "map Canonicalize s' = map Canonicalize s" for s'
  proof -
    from eq assms(1) have 1: "s' \<noteq> []" by auto
    from assms(2) have 2: "set s' \<inter> set SyntaxCharacter = {}"
      by (simp only: same_case_SyntaxCharacter [OF eq])
    show ?thesis
      using build_query_search [OF 1 2, of "q\<lparr>query_search := Some s'\<rparr>" rt]
      by (simp add: contains_ignoring_case_cong [OF eq])
  qed
  show ?thesis
  proof (intro exI [of _ ?f] conjI allI impI)
    show "build_query rt q = Inr ?f" by (rule f)
  next
    fix p
    show "or_condition ?f p \<longleftrightarrow>
           contains_ignoring_case s (fullName p) \<or> contains_ignoring_case s (condition p)
           \<or> contains_ignoring_case s (roomNumber p)"
      using o by blast
  next
    fix s' assume "map Canonicalize s' = map Canonicalize s"
    then show "build_query rt (q\<lparr>query_search := Some s'\<rparr>) = Inr ?f" by (rule c)
  next
    fix s' docs assume "map Canonicalize s' = map Canonicalize s"
    then have "build_query rt (q\<lparr>query_search := Some s'\<rparr>) = Inr ?f" by (rule c)
    then show "\<exists>patients cur st.
                 get_index rt q docs = Render_index patients (Some s) cur st
                 \<and> get_index rt (q\<lparr>query_search := Some s'\<rparr>) docs = Render_index patients (Some s') cur st"
      by (simp add: get_index_def f Let_def assms(3))
  qed
qed

theorem search_literal_text_witness:
  "''JOHN'' \<noteq> [] \<and> set ''JOHN'' \<inter> set SyntaxCharacter = {}
   \<and> map Canonicalize ''john'' = map Canonicalize ''JOHN''
   \<and> (\<exists>f. build_query example_runtime \<lparr>query_search = Some ''JOHN'', query_department = None\<rparr> = Inr f
          \<and> build_query example_runtime \<lparr>query_search = Some ''john'', query_department = None\<rparr> = Inr f
          \<and> or_condition f john \<and> or_condition f johnny \<and> \<not> or_condition f mary)"
proof -
  let ?q = "\<lparr>query_search = Some ''JOHN'', query_department = None\<rparr>"
  have 1: "''JOHN'' \<noteq> []" by simp
  have 2: "set ''JOHN'' \<inter> set SyntaxCharacter = {}" by (simp add: SyntaxCharacter_def)
  have 3: "query_search ?q = Some ''JOHN''" by simp
  have 4: "map Canonicalize ''john'' = map Canonicalize ''JOHN''" by (simp add: Canonicalize_def)
  from search_literal_text [OF 1 2 3, of example_runtime]
  obtain f where f: "build_query example_runtime ?q = Inr f"
    and o: "\<And>p. or_condition f p \<longleftrightarrow>
           contains_ignoring_case ''JOHN'' (fullName p) \<or> contains_ignoring_case ''JOHN'' (condition p)
           \<or> contains_ignoring_case ''JOHN'' (roomNumber p)"
    and c: "\<And>s'. map Canonicalize s' = map Canonicalize ''JOHN'' \<Longrightarrow>
           build_query example_runtime (?q\<lparr>query_search := Some s'\<rparr>) = Inr f"
    by blast
  from c [OF 4]
  have f': "build_query example_runtime \<lparr>query_search = Some ''john'', query_department = None\<rparr> = Inr f"
    by simp
  have a: "or_condition f john"
    by (simp add: o john_def contains_ignoring_case_def Canonicalize_def sublist_code prefix_code)
  have b: "or_condition f johnny"
    by (simp add: o johnny_def contains_ignoring_case_def Canonicalize_def sublist_code prefix_code)
  have d: "\<not> or_condition f mary"
    by (simp add: o mary_def contains_ignoring_case_def Canonicalize_def sublist_code)
  from 1 2 4 f f' a b d show ?thesis by blast
qed




text \<open>
  C5. The stats block of a rendered list is computed over the records that the current,
  possibly filtered, query returns: \<open>total\<close> is their number, \<open>critical\<close> the number of them
  with status "Critical", \<open>icu\<close> the number with department "ICU", \<open>admitted\<close> the number with
  status "Admitted". These are the counts over the documents of the collection that match
  the filter, not over the whole collection.
\<close>

theorem stats_view_scoped:
  assumes "get_index rt q docs = Render_index patients s d st"
  shows "\<exists>f. build_query rt q = Inr f
     \<and> mset patients = image_mset hydrate {#p \<in># mset docs. matches f p#}
     \<and> total st = size (mset patients)
     \<and> critical st = size {#p \<in># mset patients. status p = ''Critical''#}
     \<and> icu st = size {#p \<in># mset patients. department p = ''ICU''#}
     \<and> admitted st = size {#p \<in># mset patients. status p = ''Admitted''#}
     \<and> total st = size {#p \<in># mset docs. matches f p#}
     \<and> critical st = size {#p \<in># mset docs. matches f p \<and> status p = ''Critical''#}
     \<and> icu st = size {#p \<in># mset docs. matches f p \<and> department p = ''ICU''#}
     \<and> admitted st = size {#p \<in># mset docs. matches f p \<and> status p = ''Admitted''#}"
proof -
  from assms obtain f where f: "build_query rt q = Inr f"
    and ps: "patients = Patient_find_sort f docs" and st: "st = compute_stats patients"
    by (blast dest: get_index_Render)
  have m: "mset patients = image_mset hydrate {#p \<in># mset docs. matches f p#}"
    by (simp add: ps mset_Patient_find_sort)
  have len: "\<And>P. length (filter P patients) = size (filter_mset P (mset patients))"
    by (metis mset_filter size_mset)
  have view: "\<And>P. (\<And>p. P (hydrate p) = P p) \<Longrightarrow>
      size (filter_mset P (mset patients)) = size {#p \<in># mset docs. matches f p \<and> P p#}"
    by (simp add: m size_filter_image_hydrate filter_filter_mset conj_commute)
  have t: "size (mset patients) = size {#p \<in># mset docs. matches f p#}"
    by (simp add: m)
  have c1: "critical st = size {#p \<in># mset patients. status p = ''Critical''#}"
    and c2: "icu st = size {#p \<in># mset patients. department p = ''ICU''#}"
    and c3: "admitted st = size {#p \<in># mset patients. status p = ''Admitted''#}"
    and c0: "total st = size (mset patients)"
    by (simp_all add: st compute_stats_def len)
  have v1: "size {#p \<in># mset patients. status p = ''Critical''#}
            = size {#p \<in># mset docs. matches f p \<and> status p = ''Critical''#}"
    by (rule view) simp
  have v2: "size {#p \<in># mset patients. department p = ''ICU''#}
            = size {#p \<in># mset docs. matches f p \<and> department p = ''ICU''#}"
    by (rule view) simp
  have v3: "size {#p \<in># mset patients. status p = ''Admitted''#}
            = size {#p \<in># mset docs. matches f p \<and> status p = ''Admitted''#}"
    by (rule view) simp
  show ?thesis
    using f m c0 c1 c2 c3 t v1 v2 v3 by (intro exI [of _ f]) presburger
qed

theorem stats_view_scoped_witness:
  "get_index example_runtime \<lparr>query_search = None, query_department = Some ''Cardiology''\<rparr>
       [john, johnny, mary]
     = Render_index [mary] None ''Cardiology'' \<lparr>total = 1, critical = 0, icu = 0, admitted = 1\<rparr>
   \<and> size (mset [mary]) = 1
   \<and> size {#p \<in># mset [mary]. status p = ''Critical''#} = 0
   \<and> size {#p \<in># mset [mary]. department p = ''ICU''#} = 0
   \<and> size {#p \<in># mset [mary]. status p = ''Admitted''#} = 1
   \<and> size (mset [john, johnny, mary]) = 3"
proof -
  let ?st = "\<lparr>total = 1, critical = 0, icu = 0, admitted = 1\<rparr>"
  have h: "get_index example_runtime \<lparr>query_search = None, query_department = Some ''Cardiology''\<rparr>
       [john, johnny, mary] = Render_index [mary] None ''Cardiology'' ?st"
    by (simp add: get_index_def build_query_def Let_def Patient_find_sort_def matches_def
        or_condition_def compute_stats_def hydrate_def vitals_defaults_def applyDefault_def
        john_def johnny_def mary_def default_vitals_def)
  from stats_view_scoped [OF h]
  have "total ?st = size (mset [mary])"
    and "critical ?st = size {#p \<in># mset [mary]. status p = ''Critical''#}"
    and "icu ?st = size {#p \<in># mset [mary]. department p = ''ICU''#}"
    and "admitted ?st = size {#p \<in># mset [mary]. status p = ''Admitted''#}"
    by blast+
  with h show ?thesis by simp
qed






text \<open>
  C8. The Delete handler answers with a redirect to the list view in every case. When the id
  is not an ObjectId the collection is unchanged. Otherwise the record with that id is
  removed if there is one, the other records stay, no List of the collection after the Delete
  contains a record with that id, and a second Delete of the same id is again answered by the
  redirect and changes nothing.
\<close>

theorem delete_redirects_and_removes:
  "fst (post_delete rt id_param docs) = Redirect ''/''
   \<and> (castObjectId rt id_param = None \<longrightarrow> snd (post_delete rt id_param docs) = docs)
   \<and> (\<forall>i. castObjectId rt id_param = Some i \<and> distinct (map oid docs) \<longrightarrow>
        snd (post_delete rt id_param docs) = filter (\<lambda>p. oid p \<noteq> i) docs
        \<and> (\<forall>q patients s d st.
             get_index rt q (snd (post_delete rt id_param docs)) = Render_index patients s d st
             \<longrightarrow> i \<notin> oid ` set patients)
        \<and> post_delete rt id_param (snd (post_delete rt id_param docs))
            = (Redirect ''/'', snd (post_delete rt id_param docs)))"
proof (intro conjI allI impI)
  show "fst (post_delete rt id_param docs) = Redirect ''/''"
    by (simp add: post_delete_def split: sum.splits)
next
  assume "castObjectId rt id_param = None"
  then show "snd (post_delete rt id_param docs) = docs"
    by (simp add: post_delete_def Patient_findByIdAndDelete_def)
next
  fix i
  assume a: "castObjectId rt id_param = Some i \<and> distinct (map oid docs)"
  then show r: "snd (post_delete rt id_param docs) = filter (\<lambda>p. oid p \<noteq> i) docs"
    by (simp add: post_delete_def Patient_findByIdAndDelete_def deleteOne_distinct)
  have n: "i \<notin> oid ` set (filter (\<lambda>p. oid p \<noteq> i) docs)" by auto
  have "post_delete rt id_param (filter (\<lambda>p. oid p \<noteq> i) docs)
            = (Redirect ''/'', filter (\<lambda>p. oid p \<noteq> i) docs)"
    using a by (simp add: post_delete_def Patient_findByIdAndDelete_def deleteOne_absent [OF n])
  then show "post_delete rt id_param (snd (post_delete rt id_param docs))
            = (Redirect ''/'', snd (post_delete rt id_param docs))"
    by (simp only: r)
  fix q patients s d st
  assume "get_index rt q (snd (post_delete rt id_param docs)) = Render_index patients s d st"
  then obtain f where "patients = Patient_find_sort f (filter (\<lambda>p. oid p \<noteq> i) docs)"
    unfolding r by (blast dest: get_index_Render)
  then show "i \<notin> oid ` set patients"
    by (auto simp: set_Patient_find_sort)
qed

theorem delete_redirects_and_removes_witness:
  "castObjectId example_runtime ''1'' = Some 1 \<and> distinct (map oid [john, johnny])
   \<and> post_delete example_runtime ''1'' [john, johnny] = (Redirect ''/'', [johnny])
   \<and> post_delete example_runtime ''1'' [johnny] = (Redirect ''/'', [johnny])
   \<and> castObjectId example_runtime ''x'' = None
   \<and> post_delete example_runtime ''x'' [john, johnny] = (Redirect ''/'', [john, johnny])"
proof -
  have c: "castObjectId example_runtime ''1'' = Some 1 \<and> distinct (map oid [john, johnny])"
    and n: "castObjectId example_runtime ''x'' = None"
    by (simp_all add: example_runtime_def john_def johnny_def)
  note t = delete_redirects_and_removes [of example_runtime _ "[john, johnny]"]
  from t [of "''1''"] c
  have 1: "fst (post_delete example_runtime ''1'' [john, johnny]) = Redirect ''/''"
    and 2: "snd (post_delete example_runtime ''1'' [john, johnny]) = filter (\<lambda>p. oid p \<noteq> 1) [john, johnny]"
    and 3: "post_delete example_runtime ''1'' (snd (post_delete example_runtime ''1'' [john, johnny]))
            = (Redirect ''/'', snd (post_delete example_runtime ''1'' [john, johnny]))"
    by blast+
  have f: "filter (\<lambda>p. oid p \<noteq> 1) [john, johnny] = [johnny]"
    by (simp add: john_def johnny_def)
  from t [of "''x''"] n
  have 4: "fst (post_delete example_runtime ''x'' [john, johnny]) = Redirect ''/''"
    and 5: "snd (post_delete example_runtime ''x'' [john, johnny]) = [john, johnny]"
    by blast+
  from 2 have r2: "snd (post_delete example_runtime ''1'' [john, johnny]) = [johnny]"
    by (simp only: f)
  from 3 have r3: "post_delete example_runtime ''1'' [johnny] = (Redirect ''/'', [johnny])"
    by (simp only: r2)
  from 1 r2 have a: "post_delete example_runtime ''1'' [john, johnny] = (Redirect ''/'', [johnny])"
    by (simp only: prod_eq_iff fst_conv snd_conv simp_thms)
  from 4 5 have b: "post_delete example_runtime ''x'' [john, johnny] = (Redirect ''/'', [john, johnny])"
    by (simp only: prod_eq_iff fst_conv snd_conv simp_thms)
  from a r3 b c n show ?thesis by blast
qed

text \<open>
  C9. An Update that fails (the id or the body cannot be cast, or an update validator
  rejects the body) writes nothing: the handler redirects back to the edit view of the same
  id and the collection is unchanged. A body that fails casting or validation always fails the
  Update.
\<close>

theorem failed_update_atomic:
  "(Patient_findByIdAndUpdate rt id_param b docs = Inl e \<longrightarrow>
      post_edit rt id_param b docs = (Redirect (''/edit/'' @ id_param), docs))
   \<and> ((cast_body rt b = None \<or> (\<exists>c. cast_body rt b = Some c \<and> \<not> updateValidators c)) \<longrightarrow>
      (\<exists>e. Patient_findByIdAndUpdate rt id_param b docs = Inl e))"
  by (auto simp: post_edit_def Patient_findByIdAndUpdate_def split: option.splits)

theorem failed_update_atomic_witness:
  "Patient_findByIdAndUpdate example_runtime ''1'' blank_name_update [john] = Inl ValidationError
   \<and> post_edit example_runtime ''1'' blank_name_update [john] = (Redirect ''/edit/1'', [john])"
proof -
  have h: "Patient_findByIdAndUpdate example_runtime ''1'' blank_name_update [john] = Inl ValidationError"
    by (simp add: Patient_findByIdAndUpdate_def example_runtime_def blank_name_update_def
        cast_body_def castNumber_def castDate_def cast_vitals_def updateValidators_def
        requiredString_def trim_def WhiteSpace_def)
  from failed_update_atomic [of example_runtime "''1''" blank_name_update "[john]" ValidationError] h
  show ?thesis by simp
qed

text \<open>
  C10. In the stats of every rendered list, \<open>critical\<close>, \<open>icu\<close> and \<open>admitted\<close> are each at
  most \<open>total\<close>, and \<open>critical + admitted\<close> is at most \<open>total\<close>.
\<close>

theorem stats_bounds:
  assumes "get_index rt q docs = Render_index patients s d st"
  shows "critical st \<le> total st \<and> icu st \<le> total st \<and> admitted st \<le> total st
         \<and> critical st + admitted st \<le> total st"
proof -
  from assms have st: "st = compute_stats patients"
    by (auto dest: get_index_Render)
  have "length (filter (\<lambda>p. status p = ''Critical'') patients)
        + length (filter (\<lambda>p. status p = ''Admitted'') patients) \<le> length patients"
    by (rule length_filter_disjoint) auto
  then show ?thesis
    by (simp add: st compute_stats_def)
qed

theorem stats_bounds_witness:
  "get_index example_runtime unfiltered [john, johnny, mary]
     = Render_index [mary, johnny, john] None ''All''
         \<lparr>total = 3, critical = 1, icu = 1, admitted = 2\<rparr>
   \<and> critical \<lparr>total = 3, critical = 1, icu = 1, admitted = 2\<rparr> + admitted \<lparr>total = 3, critical = 1, icu = 1, admitted = 2\<rparr>
       \<le> total \<lparr>total = 3, critical = 1, icu = 1, admitted = 2\<rparr>"
  using stats_bounds [OF example_list] example_list by blast

end
